theory Spec2Isabelle
  imports Complex_Main "HOL-Library.Sublist" "HOL-Library.Multiset"
begin

section \<open>Python strings\<close>

text \<open>
  The string operations of \<^verbatim>\<open>remote_websocket.py\<close> that the credential file
  goes through: \<^verbatim>\<open>str.split('\n')\<close>, \<^verbatim>\<open>'\n'.join\<close>, \<^verbatim>\<open>str.startswith\<close>,
  \<^verbatim>\<open>str.strip\<close> (only ever tested for emptiness) and \<^verbatim>\<open>str.replace(p, '')\<close>.
\<close>

definition newline :: char where
  "newline = CHR 0x0A"

fun py_split :: "char \<Rightarrow> string \<Rightarrow> string list" where
  "py_split c [] = [[]]"
| "py_split c (x # xs) =
     (if x = c then [] # py_split c xs
      else (case py_split c xs of
              [] \<Rightarrow> [[x]]
            | w # ws \<Rightarrow> (x # w) # ws))"

fun py_join :: "string \<Rightarrow> string list \<Rightarrow> string" where
  "py_join sep [] = []"
| "py_join sep [x] = x"
| "py_join sep (x # y # ys) = x @ sep @ py_join sep (y # ys)"

definition startswith :: "string \<Rightarrow> string \<Rightarrow> bool" where
  "startswith s p = (take (length p) s = p)"

definition py_isspace :: "char \<Rightarrow> bool" where
  "py_isspace c = (c \<in> set [CHR 0x20, CHR 0x09, CHR 0x0A, CHR 0x0B, CHR 0x0C, CHR 0x0D,
                              CHR 0x1C, CHR 0x1D, CHR 0x1E, CHR 0x1F])"

text \<open>\<^verbatim>\<open>not line.strip()\<close>: the line is empty once its white space is stripped.\<close>

definition blank :: "string \<Rightarrow> bool" where
  "blank line = list_all py_isspace line"

text \<open>\<^verbatim>\<open>s.replace(p, '')\<close>, left to right without overlaps; an empty pattern
  inserts the empty replacement and changes nothing.\<close>

function py_remove :: "string \<Rightarrow> string \<Rightarrow> string" where
  "py_remove p s =
     (if p = [] \<or> s = [] then s
      else if startswith s p then py_remove p (drop (length p) s)
      else hd s # py_remove p (tl s))"
  by pat_completeness auto
termination
  by (relation "measure (\<lambda>(p, s). length s)") auto

section \<open>The credential file\<close>

text \<open>
  The loop of \<^verbatim>\<open>open\<close> over the lines of \<^verbatim>\<open>token.txt\<close> (lines 131 to 137):
  blank lines are skipped, the last line of the host becomes \<^verbatim>\<open>token\<close>, every
  other line is collected in \<^verbatim>\<open>all_tokens\<close>.
\<close>

fun scan_tokens :: "string \<Rightarrow> string list \<Rightarrow> string \<times> string list \<Rightarrow> string \<times> string list" where
  "scan_tokens h [] acc = acc"
| "scan_tokens h (line # rest) (token, all_tokens) =
     (if blank line then scan_tokens h rest (token, all_tokens)
      else if startswith line (h @ '':'') then scan_tokens h rest (line, all_tokens)
      else scan_tokens h rest (token, all_tokens @ [line]))"

text \<open>
  The loop of \<^verbatim>\<open>auth_callback\<close> (lines 201 to 203) runs over a copy of
  \<^verbatim>\<open>token_data\<close> and removes the element \<^verbatim>\<open>lne\<close> from the list itself; its
  test reads \<^verbatim>\<open>line\<close>, the variable the loop of the enclosing \<^verbatim>\<open>open\<close> left
  behind, so the test is the same at every step. \<^verbatim>\<open>list.remove\<close> takes the first
  equal element out; each element of the copy is still in the list when its turn comes.
\<close>

fun remove_lines :: "bool \<Rightarrow> string list \<Rightarrow> string list \<Rightarrow> string list" where
  "remove_lines c [] token_data = token_data"
| "remove_lines c (lne # rest) token_data =
     remove_lines c rest (if c then remove1 lne token_data else token_data)"

section \<open>Data model\<close>

text \<open>
  Exceptions are values. \<^verbatim>\<open>RuntimeError\<close> carries its message; \<^verbatim>\<open>RecursionError\<close>
  is Python's answer to a call stack that is too deep, and a subclass of
  \<^verbatim>\<open>RuntimeError\<close>.
\<close>

datatype error =
    RuntimeError string
  | RecursionError
  | TypeError
  | KeyError
  | ValueError
  | AttributeError
  | ConnectionClosed

fun is_runtime_error :: "error \<Rightarrow> bool" where
  "is_runtime_error (RuntimeError m) = True"
| "is_runtime_error RecursionError = True"
| "is_runtime_error e = False"

text \<open>
  Decoded JSON, as far as the module reads it: strings, numbers and objects. An inbound
  message is the decoded top-level object, a frame is what \<^verbatim>\<open>sock.recv()\<close> returns:
  text that \<^verbatim>\<open>json.loads\<close> decodes, or text that it refuses.
\<close>

datatype json = JStr string | JNum int | JObj "(string \<times> json) list"

type_synonym message = "(string \<times> json) list"

datatype frame = Text message | Malformed

text \<open>
  The functions that are registered as receive callbacks. The two closures of
  \<^verbatim>\<open>open\<close> are made anew by every call, so they carry the number of the call
  (which also names its \<^verbatim>\<open>auth_event\<close>) and the value of the variable
  \<^verbatim>\<open>line\<close> they close over. The three closures of \<^verbatim>\<open>Mouse.run\<close> carry the
  number of the run; \<open>Plain\<close> stands for the remaining callbacks of the module
  (application lists, voice recognition), which only set an event of their caller.
\<close>

datatype handler =
    AuthCallback nat string
  | UnauthorizedCallback nat string
  | ImeStart nat
  | ImeUpdate nat
  | TouchEnable nat
  | Plain nat

text \<open>An entry of \<^verbatim>\<open>_registered_callbacks\<close>: \<^verbatim>\<open>[callback, key, data]\<close>, with
  \<open>None\<close> as \<open>data\<close> for the wildcard.\<close>

type_synonym entry = "handler \<times> string \<times> string option"

datatype scheme = WS | WSS

datatype level = Debug | Info | Err

datatype event_name =
    AuthEvent nat
  | PowerEvent
  | SettleEvent
  | SendEvent
  | ImeStartEvent
  | ImeUpdateEvent
  | TouchEnableEvent

text \<open>
  What the program does to the outside world, in the order it does it: connection
  attempts (scheme, host, port, display name before its base64 encoding, token query),
  socket operations, log records, wake-on-LAN packets, bounded waits on an event, and
  the invocation of the callback of a registry entry.
\<close>

datatype effect =
    Connect scheme string int string string
  | SockClose nat
  | SockSend nat json
  | Log level string
  | SendWol string
  | Wait event_name real
  | Call entry

text \<open>
  One future connection attempt, as the device will answer it: whether
  \<^verbatim>\<open>websocket.create_connection\<close> succeeds, and the frames the receive thread
  reads from the new socket while the opener waits on \<^verbatim>\<open>auth_event\<close>.
\<close>

record conn =
  accept :: bool
  inbound :: "frame list"

text \<open>
  The \<^verbatim>\<open>RemoteWebsocket\<close> object with the part of the world it acts on.
  \<^item> \<open>host\<close>, \<open>port\<close>, \<open>name\<close>: the entries of \<^verbatim>\<open>self.config\<close>;
  \<^item> \<open>token_file\<close>: the contents of \<^verbatim>\<open>token.txt\<close>;
  \<^item> \<open>sock\<close>: \<^verbatim>\<open>self.sock\<close>, a connection by its number;
  \<^item> \<open>loop_event\<close>, \<open>power_event\<close>: the two \<^verbatim>\<open>threading.Event\<close> attributes;
  \<^item> \<open>auth_events\<close>: the calls of \<^verbatim>\<open>open\<close> whose \<^verbatim>\<open>auth_event\<close> is set;
  \<^item> \<open>parked\<close>: a receive thread is blocked in \<^verbatim>\<open>sock.recv()\<close>;
  \<^item> \<open>mac_address_attr\<close>: \<^verbatim>\<open>self._mac_address\<close>; \<open>connection\<close>: the attribute
    \<^verbatim>\<open>connection\<close> that \<^verbatim>\<open>Mouse._send\<close> reads, \<open>None\<close> when the object has
    none (\<^verbatim>\<open>RemoteWebsocket\<close> never sets it);
  \<^item> \<open>arp\<close>: what \<^verbatim>\<open>wake_on_lan.get_mac_address\<close> answers for the host;
  \<^item> \<open>pending\<close>: the connection attempts to come (none left: the device is unreachable);
  \<^item> \<open>hangups\<close>: for the waits on \<^verbatim>\<open>_power_event\<close> to come, whether the device
    drops the connection during the wait;
  \<^item> \<open>trace\<close>: the effects so far.
\<close>

record remote =
  host :: string
  port :: int
  name :: string
  token_file :: string
  sock :: "nat option"
  loop_event :: bool
  power_event :: bool
  registered_callbacks :: "entry list"
  running :: bool
  mac_address_attr :: "string option"
  connection :: "bool option"
  auth_events :: "nat list"
  next_id :: nat
  connections :: nat
  parked :: bool
  arp :: "string option"
  pending :: "conn list"
  hangups :: "bool list"
  trace :: "effect list"

text \<open>A call either returns or raises, and leaves the object behind either way.\<close>

datatype outcome = Returned remote | Raised error remote

fun state_of :: "outcome \<Rightarrow> remote" where
  "state_of (Returned r) = r"
| "state_of (Raised e r) = r"

fun raised :: "outcome \<Rightarrow> error option" where
  "raised (Returned r) = None"
| "raised (Raised e r) = Some e"

definition emit :: "effect \<Rightarrow> remote \<Rightarrow> remote" where
  "emit e r = r\<lparr>trace := trace r @ [e]\<rparr>"

section \<open>The receive thread and the callback registry\<close>

text \<open>
  The receive thread and the caller's thread are run one after the other: a callback
  runs to its end on the receive thread before the caller goes on, and a socket that
  is closed while a receive thread is blocked in \<^verbatim>\<open>recv\<close> makes that read fail at
  once, which sends the thread through the lines after the \<^verbatim>\<open>while\<close> of
  \<^verbatim>\<open>loop\<close>. The session lock and the interleavings of the two threads are not
  part of the model.
\<close>

text \<open>Lines 116 to 121 of \<^verbatim>\<open>loop\<close>: what the receive thread does on its way out.\<close>

definition teardown :: "remote \<Rightarrow> remote" where
  "teardown r =
     (let r = r\<lparr>power_event := True\<rparr>;
          r = r\<lparr>sock := None\<rparr>;
          r = emit (Log Info ''Websocket closed'') r;
          r = r\<lparr>loop_event := False\<rparr>;
          r = r\<lparr>registered_callbacks := []\<rparr>
      in r\<lparr>parked := False\<rparr>)"

text \<open>The blocked read of a parked receive thread fails: \<^verbatim>\<open>except\<close> sets
  \<^verbatim>\<open>_loop_event\<close>, the \<^verbatim>\<open>while\<close> ends.\<close>

definition recv_fails :: "remote \<Rightarrow> remote" where
  "recv_fails r = (if parked r then teardown (r\<lparr>loop_event := True\<rparr>) else r)"

definition close :: "remote \<Rightarrow> remote" where
  "close r =
     (case sock r of
        None \<Rightarrow> r
      | Some c \<Rightarrow> recv_fails (emit (SockClose c) (r\<lparr>loop_event := True\<rparr>)))"

definition register_receive_callback ::
  "handler \<Rightarrow> string \<Rightarrow> string option \<Rightarrow> remote \<Rightarrow> remote" where
  "register_receive_callback callback key data r =
     r\<lparr>registered_callbacks := registered_callbacks r @ [(callback, key, data)]\<rparr>"

definition unregister_receive_callback ::
  "handler \<Rightarrow> string \<Rightarrow> string option \<Rightarrow> remote \<Rightarrow> remote" where
  "unregister_receive_callback callback key data r =
     (if (callback, key, data) \<in> set (registered_callbacks r)
      then r\<lparr>registered_callbacks := remove1 (callback, key, data) (registered_callbacks r)\<rparr>
      else r)"

text \<open>\<^verbatim>\<open>key in response and (data is None or response[key] == data)\<close>\<close>

definition matches :: "message \<Rightarrow> entry \<Rightarrow> bool" where
  "matches response e =
     (case e of (callback, key, data) \<Rightarrow>
        (case map_of response key of
           None \<Rightarrow> False
         | Some v \<Rightarrow> (case data of None \<Rightarrow> True | Some d \<Rightarrow> v = JStr d)))"

text \<open>
  The \<^verbatim>\<open>for\<close> loop of \<^verbatim>\<open>on_message\<close> over the copy
  \<^verbatim>\<open>self._registered_callbacks[:]\<close>. The loop has no \<^verbatim>\<open>break\<close>. A callback that
  raises ends it; so does \<^verbatim>\<open>list.remove\<close> when the entry is no longer in the
  registry (\<^verbatim>\<open>ValueError\<close>). \<open>call\<close> is what invoking a callback does.
\<close>

fun dispatch ::
  "(handler \<Rightarrow> message \<Rightarrow> remote \<Rightarrow> outcome) \<Rightarrow> entry list \<Rightarrow> message \<Rightarrow> remote \<Rightarrow> outcome" where
  "dispatch call [] response r = Returned r"
| "dispatch call (e # es) response r =
     (if matches response e then
        (case call (fst e) response (emit (Call e) r) of
           Raised err r' \<Rightarrow> Raised err r'
         | Returned r' \<Rightarrow>
             if e \<in> set (registered_callbacks r')
             then dispatch call es response
                    (r'\<lparr>registered_callbacks := remove1 e (registered_callbacks r')\<rparr>)
             else Raised ValueError r')
      else dispatch call es response r)"

fun on_message ::
  "(handler \<Rightarrow> message \<Rightarrow> remote \<Rightarrow> outcome) \<Rightarrow> frame \<Rightarrow> remote \<Rightarrow> outcome" where
  "on_message call Malformed r = Raised ValueError r"
| "on_message call (Text response) r =
     dispatch call (registered_callbacks r) response (emit (Log Debug ''incoming message'') r)"

text \<open>
  \<^verbatim>\<open>loop\<close>, run on the frames the socket delivers. With \<^verbatim>\<open>_loop_event\<close> set the
  thread leaves; with \<^verbatim>\<open>self.sock\<close> gone the read raises, which the bare
  \<^verbatim>\<open>except\<close> turns into \<^verbatim>\<open>_loop_event.set()\<close>, like every exception of a
  callback; with no frame left the thread stays blocked in \<^verbatim>\<open>recv\<close>.
\<close>

fun loop ::
  "(handler \<Rightarrow> message \<Rightarrow> remote \<Rightarrow> outcome) \<Rightarrow> frame list \<Rightarrow> remote \<Rightarrow> remote" where
  "loop call [] r =
     (if loop_event r then teardown r
      else if sock r = None then teardown (r\<lparr>loop_event := True\<rparr>)
      else r\<lparr>parked := True\<rparr>)"
| "loop call (f # fs) r =
     (if loop_event r then teardown r
      else if sock r = None then teardown (r\<lparr>loop_event := True\<rparr>)
      else (case on_message call f (r\<lparr>parked := False\<rparr>) of
              Returned r' \<Rightarrow> loop call fs r'
            | Raised err r' \<Rightarrow> loop call fs (r'\<lparr>loop_event := True\<rparr>)))"

section \<open>The handshake\<close>

text \<open>\<^verbatim>\<open>k in v\<close> for a decoded JSON value \<open>v\<close>: a key of an object, a substring of a
  string; a number is not iterable.\<close>

fun py_in :: "string \<Rightarrow> json \<Rightarrow> error + bool" where
  "py_in k (JObj kvs) = Inr (map_of kvs k \<noteq> None)"
| "py_in k (JStr s) = Inr (sublist k s)"
| "py_in k (JNum n) = Inl TypeError"

text \<open>\<^verbatim>\<open>self.config['host'] + ':' + data['data']["token"]\<close>\<close>

fun token_line :: "string \<Rightarrow> json \<Rightarrow> error + string" where
  "token_line h (JObj kvs) =
     (case map_of kvs ''token'' of
        None \<Rightarrow> Inl KeyError
      | Some (JStr t) \<Rightarrow> Inr (h @ '':'' @ t)
      | Some v \<Rightarrow> Inl TypeError)"
| "token_line h v = Inl TypeError"

text \<open>Lines 213 to 221 of \<^verbatim>\<open>auth_callback\<close>.\<close>

definition access_granted :: "nat \<Rightarrow> string \<Rightarrow> remote \<Rightarrow> remote" where
  "access_granted i line r =
     (let r = emit (Log Debug ''Access granted.'') r;
          r = r\<lparr>auth_events := i # auth_events r\<rparr>;
          r = unregister_receive_callback (UnauthorizedCallback i line) ''event''
                (Some ''ms.channel.unauthorized'') r
      in r\<lparr>power_event := True\<rparr>)"

definition auth_callback :: "nat \<Rightarrow> string \<Rightarrow> message \<Rightarrow> remote \<Rightarrow> outcome" where
  "auth_callback i line data r =
     (case map_of data ''data'' of
        None \<Rightarrow> Returned (access_granted i line r)
      | Some d \<Rightarrow>
          (case py_in ''token'' d of
             Inl err \<Rightarrow> Raised err r
           | Inr False \<Rightarrow> Returned (access_granted i line r)
           | Inr True \<Rightarrow>
               (case token_line (host r) d of
                  Inl err \<Rightarrow> Raised err r
                | Inr new \<Rightarrow>
                    (let token_data = py_split newline (token_file r);
                         token_data = remove_lines (startswith line (host r @ '':''))
                                        token_data token_data;
                         token_data = token_data @ [new];
                         r = emit (Log Debug (''new token: '' @ last token_data)) r;
                         r = r\<lparr>token_file := py_join [newline] token_data @ [newline]\<rparr>
                     in Returned (access_granted i line r)))))"

text \<open>\<^verbatim>\<open>unauthorized_callback\<close>; \<open>reopen\<close> is the call \<^verbatim>\<open>self.open()\<close> of line 191.\<close>

definition unauthorized_callback ::
  "(remote \<Rightarrow> outcome) \<Rightarrow> nat \<Rightarrow> string \<Rightarrow> remote \<Rightarrow> outcome" where
  "unauthorized_callback reopen i line r =
     (let r = r\<lparr>auth_events := i # auth_events r\<rparr>;
          r = unregister_receive_callback (AuthCallback i line) ''event''
                (Some ''ms.channel.connect'') r
      in if port r = 8001 then
           (let r = emit (Log Debug ''Websocket connection failed. Trying ssl connection'') r;
                r = r\<lparr>port := 8002\<rparr>
            in reopen r)
         else Raised (RuntimeError ''Authentication denied'') (close r))"

fun call_handler :: "(remote \<Rightarrow> outcome) \<Rightarrow> handler \<Rightarrow> message \<Rightarrow> remote \<Rightarrow> outcome" where
  "call_handler reopen (AuthCallback i line) data r = auth_callback i line data r"
| "call_handler reopen (UnauthorizedCallback i line) data r = unauthorized_callback reopen i line r"
| "call_handler reopen h data r = Returned r"

text \<open>
  The body of \<^verbatim>\<open>open\<close>, in its three parts. Lines 125 to 147 read
  \<^verbatim>\<open>token.txt\<close>, move the line of the host to the end and write the file back;
  they leave \<^verbatim>\<open>line\<close> (the last element of the split) and the token query.
\<close>

definition read_tokens :: "remote \<Rightarrow> string \<times> string \<times> remote" where
  "read_tokens r =
     (let lines = py_split newline (token_file r);
          line = last lines;
          (token, all_tokens) = scan_tokens (host r) lines ([], []);
          all_tokens = (if token \<noteq> [] then all_tokens @ [token] else all_tokens);
          query = (if token \<noteq> [] then ''&token='' @ py_remove (host r @ '':'') token else []);
          r = (if token \<noteq> []
               then emit (Log Debug (''using saved token: '' @ py_remove (host r @ '':'') token)) r
               else r);
          r = (if all_tokens \<noteq> []
               then r\<lparr>token_file := py_join [newline] all_tokens @ [newline]\<rparr> else r)
      in (line, query, r))"

text \<open>Lines 149 to 171: an open socket is closed, the port and the scheme are chosen,
  the connection is attempted.\<close>

definition choose_endpoint :: "string \<Rightarrow> remote \<Rightarrow> remote" where
  "choose_endpoint query r =
     (let r = (if sock r \<noteq> None then close r else r);
          secure = (query \<noteq> [] \<or> port r = 8002);
          r = r\<lparr>port := (if secure then 8002 else 8001)\<rparr>
      in emit (Connect (if secure then WSS else WS) (host r) (port r) (name r) query) r)"

text \<open>
  Lines 171 to 243, once the connection stands: the two callbacks are registered, the
  receive thread is started and runs \<^verbatim>\<open>loop\<close> on the frames of the new connection;
  \<^verbatim>\<open>auth_event.wait(30.0)\<close> then finds the event set or not.
\<close>

definition await_auth :: "(remote \<Rightarrow> outcome) \<Rightarrow> string \<Rightarrow> frame list \<Rightarrow> remote \<Rightarrow> outcome" where
  "await_auth reopen line frames r =
     (let r = r\<lparr>sock := Some (connections r), connections := Suc (connections r)\<rparr>;
          i = next_id r;
          r = r\<lparr>next_id := Suc i, auth_events := removeAll i (auth_events r)\<rparr>;
          r = register_receive_callback (AuthCallback i line) ''event''
                (Some ''ms.channel.connect'') r;
          r = register_receive_callback (UnauthorizedCallback i line) ''event''
                (Some ''ms.channel.unauthorized'') r;
          r = loop (call_handler reopen) frames r;
          r = emit (Wait (AuthEvent i) 30) r
      in if i \<notin> set (auth_events r)
         then Raised (RuntimeError ''Auth Failure'') (close r)
         else Returned (r\<lparr>running := True\<rparr>))"

definition open_with :: "(remote \<Rightarrow> outcome) \<Rightarrow> remote \<Rightarrow> outcome" where
  "open_with reopen r =
     (case read_tokens r of (line, query, r) \<Rightarrow>
        (let r = choose_endpoint query r
         in case pending r of
              [] \<Rightarrow> Raised (RuntimeError ''Unable to connect to the TV'') r
            | c # cs \<Rightarrow>
                if accept c then await_auth reopen line (inbound c) (r\<lparr>pending := cs\<rparr>)
                else Raised (RuntimeError ''Unable to connect to the TV'') (r\<lparr>pending := cs\<rparr>)))"

text \<open>
  \<^verbatim>\<open>open\<close> calls itself through \<^verbatim>\<open>unauthorized_callback\<close>. \<open>open_depth d\<close> is
  \<^verbatim>\<open>open\<close> with room for \<open>d\<close> nested calls on the stack.
\<close>

fun open_depth :: "nat \<Rightarrow> remote \<Rightarrow> outcome" where
  "open_depth 0 r = Raised RecursionError r"
| "open_depth (Suc d) r = open_with (open_depth d) r"

section \<open>A handshake that returns has set the power event\<close>

text \<open>
  \<^verbatim>\<open>auth_event\<close> is set by \<^verbatim>\<open>auth_callback\<close>, which sets \<^verbatim>\<open>_power_event\<close>
  as well, or by \<^verbatim>\<open>unauthorized_callback\<close>, which raises or reopens; an exception
  on the receive thread ends \<^verbatim>\<open>loop\<close>, whose last lines set \<^verbatim>\<open>_power_event\<close>.
\<close>

lemma power_event_teardown: "power_event (teardown r)"
  by (simp add: teardown_def emit_def)

definition settles :: "nat \<Rightarrow> remote \<Rightarrow> bool" where
  "settles i r = (i \<in> set (auth_events r) \<longrightarrow> power_event r \<or> loop_event r)"

definition gentle :: "(handler \<Rightarrow> message \<Rightarrow> remote \<Rightarrow> outcome) \<Rightarrow> bool" where
  "gentle call = (\<forall>h m s s'. call h m s = Returned s' \<longrightarrow> s' = s \<or> power_event s')"

lemma settles_dispatch:
  "gentle call \<Longrightarrow> settles i r \<Longrightarrow> dispatch call es m r = Returned r' \<Longrightarrow> settles i r'"
proof (induction es arbitrary: r)
  case Nil
  then show ?case by simp
next
  case (Cons e es)
  show ?case
  proof (cases "matches m e")
    case False
    with Cons show ?thesis by simp
  next
    case True
    from Cons.prems(3) True obtain s where
      s: "call (fst e) m (emit (Call e) r) = Returned s"
      and mem: "e \<in> set (registered_callbacks s)"
      and rest: "dispatch call es m (s\<lparr>registered_callbacks := remove1 e (registered_callbacks s)\<rparr>) = Returned r'"
      by (auto split: outcome.splits if_splits)
    from s Cons.prems(1) have "s = emit (Call e) r \<or> power_event s"
      unfolding gentle_def by blast
    with Cons.prems(2) have "settles i s"
      by (auto simp: settles_def emit_def)
    then have "settles i (s\<lparr>registered_callbacks := remove1 e (registered_callbacks s)\<rparr>)"
      by (simp add: settles_def)
    with Cons.IH Cons.prems(1) rest show ?thesis by blast
  qed
qed

lemma settles_loop:
  "gentle call \<Longrightarrow> settles i r \<Longrightarrow>
   i \<in> set (auth_events (loop call fs r)) \<Longrightarrow> power_event (loop call fs r)"
proof (induction fs arbitrary: r)
  case Nil
  then show ?case by (auto simp: settles_def power_event_teardown)
next
  case (Cons f fs)
  show ?case
  proof (cases "loop_event r \<or> sock r = None")
    case True
    then show ?thesis by (auto simp: power_event_teardown)
  next
    case False
    let ?o = "on_message call f (r\<lparr>parked := False\<rparr>)"
    show ?thesis
    proof (cases ?o)
      case (Returned s)
      then obtain m where f: "f = Text m" by (cases f) auto
      with Returned have "dispatch call (registered_callbacks r) m (emit (Log Debug ''incoming message'') (r\<lparr>parked := False\<rparr>)) = Returned s"
        by simp
      moreover have "settles i (emit (Log Debug ''incoming message'') (r\<lparr>parked := False\<rparr>))"
        using Cons.prems(2) by (simp add: settles_def emit_def)
      ultimately have "settles i s"
        using settles_dispatch Cons.prems(1) by blast
      moreover have "loop call (f # fs) r = loop call fs s"
        using False Returned by auto
      ultimately show ?thesis
        using Cons.IH[OF Cons.prems(1), of s] Cons.prems(3) by simp
    next
      case (Raised err s)
      have "settles i (s\<lparr>loop_event := True\<rparr>)" by (simp add: settles_def)
      moreover have "loop call (f # fs) r = loop call fs (s\<lparr>loop_event := True\<rparr>)"
        using False Raised by auto
      ultimately show ?thesis
        using Cons.IH[OF Cons.prems(1), of "s\<lparr>loop_event := True\<rparr>"] Cons.prems(3) by simp
    qed
  qed
qed

lemma gentle_call_handler:
  assumes "\<And>s s'. reopen s = Returned s' \<Longrightarrow> power_event s'"
  shows "gentle (call_handler reopen)"
  unfolding gentle_def
proof (intro allI impI)
  fix h m s s'
  assume c: "call_handler reopen h m s = Returned s'"
  show "s' = s \<or> power_event s'"
  proof (cases h)
    case (AuthCallback i line)
    with c show ?thesis
      by (auto simp: auth_callback_def access_granted_def Let_def
               split: option.splits sum.splits bool.splits)
  next
    case (UnauthorizedCallback i line)
    with c assms show ?thesis
      by (auto simp: unauthorized_callback_def Let_def split: if_splits)
  qed (use c in auto)
qed

lemma await_auth_returned_power:
  assumes "\<And>s s'. reopen s = Returned s' \<Longrightarrow> power_event s'"
    and "await_auth reopen line fs r = Returned r'"
  shows "power_event r'"
proof -
  note g = gentle_call_handler[of reopen, OF assms(1)]
  define i where "i = next_id r"
  define s where "s = register_receive_callback (UnauthorizedCallback i line) ''event''
                (Some ''ms.channel.unauthorized'') (register_receive_callback (AuthCallback i line) ''event''
                (Some ''ms.channel.connect'') (r\<lparr>sock := Some (connections r), connections := Suc (connections r),
                   next_id := Suc i, auth_events := removeAll i (auth_events r)\<rparr>))"
  have st: "settles i s"
    by (simp add: settles_def s_def register_receive_callback_def)
  have *: "i \<in> set (auth_events (loop (call_handler reopen) fs s)) \<Longrightarrow>
      power_event (loop (call_handler reopen) fs s)"
    using settles_loop[OF g st] .
  from assms(2) have "i \<in> set (auth_events (loop (call_handler reopen) fs s))"
    and "r' = (emit (Wait (AuthEvent i) 30) (loop (call_handler reopen) fs s))\<lparr>running := True\<rparr>"
    by (auto simp: await_auth_def Let_def s_def i_def emit_def split: if_splits)
  with * show ?thesis by (simp add: emit_def)
qed

lemma open_with_returned_power:
  assumes "\<And>s s'. reopen s = Returned s' \<Longrightarrow> power_event s'"
    and "open_with reopen r = Returned r'"
  shows "power_event r'"
  using assms(2) await_auth_returned_power[OF assms(1)]
  by (auto simp: open_with_def Let_def split: prod.splits list.splits if_splits)

lemma open_depth_returned_power:
  "open_depth d r = Returned r' \<Longrightarrow> power_event r'"
proof (induction d arbitrary: r r')
  case 0
  then show ?case by simp
next
  case (Suc d)
  then show ?case
    using open_with_returned_power[of "open_depth d" r r'] by simp
qed

section \<open>Power and single commands\<close>

text \<open>The property \<^verbatim>\<open>mac_address\<close>: the address is looked up once and kept, the
  empty string when the lookup finds none.\<close>

definition mac_address :: "remote \<Rightarrow> string \<times> remote" where
  "mac_address r =
     (case mac_address_attr r of
        None \<Rightarrow>
          (let m = (case arp r of None \<Rightarrow> [] | Some a \<Rightarrow> a)
           in (m, r\<lparr>mac_address_attr := Some m\<rparr>))
      | Some m \<Rightarrow> (m, r))"

text \<open>The property \<^verbatim>\<open>power\<close>, read.\<close>

definition power :: "remote \<Rightarrow> bool" where
  "power r = (sock r \<noteq> None)"

text \<open>\<^verbatim>\<open>self._power_event.wait(t)\<close>. A device that drops the connection during the
  wait makes the read of the receive thread fail.\<close>

definition wait_power :: "real \<Rightarrow> remote \<Rightarrow> remote" where
  "wait_power t r =
     (let r = emit (Wait PowerEvent t) r
      in case hangups r of
           [] \<Rightarrow> r
         | h # hs \<Rightarrow> (let r = r\<lparr>hangups := hs\<rparr> in if h then recv_fails r else r))"

text \<open>
  The \<^verbatim>\<open>while\<close> loop of the setter of \<^verbatim>\<open>power\<close> (lines 78 to 84), with the
  counter \<^verbatim>\<open>error_count\<close>. \<^verbatim>\<open>except RuntimeError\<close> lets every other exception
  through. The loop ends: an \<^verbatim>\<open>open\<close> that returns has set \<^verbatim>\<open>_power_event\<close>, one
  that raises a \<^verbatim>\<open>RuntimeError\<close> is counted.
\<close>

function power_loop :: "nat \<Rightarrow> string \<Rightarrow> remote \<Rightarrow> nat \<Rightarrow> nat \<times> outcome" where
  "power_loop d mac r error_count =
     (if \<not> power_event r \<and> error_count < 6 then
        (case open_depth d (wait_power 10 (emit (SendWol mac) r)) of
           Returned r' \<Rightarrow> power_loop d mac r' error_count
         | Raised err r' \<Rightarrow>
             if is_runtime_error err then power_loop d mac r' (Suc error_count)
             else (error_count, Raised err r'))
      else (error_count, Returned r))"
  by pat_completeness auto
termination
proof (relation "measure (\<lambda>(d, mac, r, error_count).
          2 * (6 - error_count) + (if power_event r then 0 else 1))", goal_cases)
  case 1
  then show ?case by simp
next
  case (2 d mac r error_count r')
  then show ?case by (auto dest: open_depth_returned_power)
next
  case (3 d mac r error_count err r')
  then show ?case by auto
qed

declare power_loop.simps [simp del]

text \<open>\<^verbatim>\<open>send\<close>: the payload is the object that \<^verbatim>\<open>json.dumps\<close> serialises.\<close>

definition send :: "string \<Rightarrow> (string \<times> json) list \<Rightarrow> remote \<Rightarrow> remote" where
  "send method params r =
     (case sock r of
        None \<Rightarrow> emit (Log Info ''Is the TV on???'') r
      | Some c \<Rightarrow> emit (SockSend c (JObj [(''method'', JStr method), (''params'', JObj params)])) r)"

text \<open>
  The setter of \<^verbatim>\<open>power\<close> and \<^verbatim>\<open>control\<close>, which call each other: the setter
  sends the power keys through \<^verbatim>\<open>control\<close>, and \<^verbatim>\<open>control\<close> hands
  \<^verbatim>\<open>KEY_POWERON\<close> and \<^verbatim>\<open>KEY_POWER\<close> to the setter while the power is off.
\<close>

function power_set :: "nat \<Rightarrow> bool \<Rightarrow> remote \<Rightarrow> outcome"
  and control :: "nat \<Rightarrow> string \<Rightarrow> string \<Rightarrow> remote \<Rightarrow> outcome" where
  "power_set d v r0 =
     (let r = r0\<lparr>power_event := False\<rparr>
      in if v \<and> sock r = None then
           (case mac_address r of (mac, r) \<Rightarrow>
              if mac \<noteq> [] then
                (case power_loop d mac r 0 of
                   (error_count, Raised err r') \<Rightarrow> Raised err r'
                 | (error_count, Returned r') \<Rightarrow>
                     Returned (if error_count = 6
                       then emit (Log Err ''Unable to power on the TV, check network connectivity'') r'
                       else r'))
              else Returned r)
         else if \<not> v \<and> sock r \<noteq> None then
           (case control d ''KEY_POWEROFF'' ''Click'' r of
              Raised err r' \<Rightarrow> Raised err r'
            | Returned r1 \<Rightarrow>
                (let r2 = wait_power 1 r1
                 in case (if \<not> power_event r2 then
                            (case control d ''KEY_POWER'' ''Click''
                                    (emit (Log Info (''unable to power off TV using command KEY_POWEROFF. '' @
                                                     ''Trying command KEY_POWER'')) r2) of
                               Raised err r' \<Rightarrow> Raised err r'
                             | Returned r3 \<Rightarrow> Returned (wait_power 1 r3))
                          else Returned r2) of
                      Raised err r' \<Rightarrow> Raised err r'
                    | Returned r4 \<Rightarrow>
                        Returned (if \<not> power_event r4
                                  then emit (Log Err ''Unable to power off the TV'') r4 else r4)))
         else Returned r)"
| "control d key cmd r =
     (if key = ''KEY_POWERON'' \<and> \<not> power r then power_set d True r
      else if key = ''KEY_POWER'' \<and> \<not> power r then power_set d True r
      else
        (case (if \<not> running r then open_depth d r else Returned r) of
           Raised err r' \<Rightarrow> Raised err r'
         | Returned r \<Rightarrow>
             (let params = [(''Cmd'', JStr cmd), (''DataOfCmd'', JStr key),
                            (''Option'', JStr ''false''), (''TypeOfRemote'', JStr ''SendRemoteKey'')];
                  r = emit (Log Info ''Sending control command'') r;
                  r = send ''ms.remote.control'' params r
              in Returned (emit (Wait SettleEvent 0.15) r))))"
  by pat_completeness auto
termination
  by (relation "measure (\<lambda>x. case x of Inl (d, v, r) \<Rightarrow> (if v then 0 else 2) | Inr (d, key, cmd, r) \<Rightarrow> 1)") auto


section \<open>Dispatch\<close>

text \<open>The registry entries whose callbacks were invoked, in the order of the trace.\<close>

fun fired :: "effect list \<Rightarrow> entry list" where
  "fired [] = []"
| "fired (Call e # t) = e # fired t"
| "fired (x # t) = fired t"




lemma dispatch_all_matches:
  assumes "\<And>e s. e \<in> set es \<Longrightarrow> matches m e \<Longrightarrow> call (fst e) m s = Returned s"
    and "registered_callbacks r = pre @ es"
    and "\<And>e. e \<in> set pre \<Longrightarrow> \<not> matches m e"
  shows "dispatch call es m r =
         Returned (r\<lparr>registered_callbacks := pre @ filter (\<lambda>e. \<not> matches m e) es,
                     trace := trace r @ map Call (filter (matches m) es)\<rparr>)"
  using assms
proof (induction es arbitrary: r pre)
  case Nil
  then show ?case by simp
next
  case (Cons e es)
  show ?case
  proof (cases "matches m e")
    case False
    have "dispatch call es m r =
         Returned (r\<lparr>registered_callbacks := (pre @ [e]) @ filter (\<lambda>e. \<not> matches m e) es,
                     trace := trace r @ map Call (filter (matches m) es)\<rparr>)"
      using Cons.prems False by (intro Cons.IH) auto
    with False show ?thesis by simp
  next
    case True
    then have notin: "e \<notin> set pre" using Cons.prems(3) by blast
    let ?r = "(emit (Call e) r)\<lparr>registered_callbacks := pre @ es\<rparr>"
    have c: "call (fst e) m (emit (Call e) r) = Returned (emit (Call e) r)"
      using Cons.prems(1) True by simp
    have rm: "remove1 e (registered_callbacks (emit (Call e) r)) = pre @ es"
      using notin Cons.prems(2) by (simp add: emit_def remove1_append)
    have "dispatch call es m ?r =
         Returned (?r\<lparr>registered_callbacks := pre @ filter (\<lambda>e. \<not> matches m e) es,
                     trace := trace ?r @ map Call (filter (matches m) es)\<rparr>)"
      using Cons.prems by (intro Cons.IH) auto
    moreover have "dispatch call (e # es) m r = dispatch call es m ?r"
      using True c rm Cons.prems(2) by (simp add: emit_def)
    ultimately show ?thesis using True by (simp add: emit_def)
  qed
qed







section \<open>A handshake without an answer\<close>

text \<open>
  An entry is standard when a callback of \<^verbatim>\<open>open\<close> is registered the way
  \<^verbatim>\<open>open\<close> registers it; a frame is silent when it is neither of the two answers
  to the handshake.
\<close>

definition standard :: "entry \<Rightarrow> bool" where
  "standard e =
     (case e of
        (AuthCallback i line, key, data) \<Rightarrow> key = ''event'' \<and> data = Some ''ms.channel.connect''
      | (UnauthorizedCallback i line, key, data) \<Rightarrow>
          key = ''event'' \<and> data = Some ''ms.channel.unauthorized''
      | (h, key, data) \<Rightarrow> True)"

definition silent :: "frame \<Rightarrow> bool" where
  "silent f =
     (case f of
        Malformed \<Rightarrow> True
      | Text m \<Rightarrow> map_of m ''event'' \<noteq> Some (JStr ''ms.channel.connect'') \<and>
                  map_of m ''event'' \<noteq> Some (JStr ''ms.channel.unauthorized''))"

lemma loop_ends_parked_or_gone:
  "sock (loop call fs r) = None \<and> \<not> parked (loop call fs r) \<and>
     registered_callbacks (loop call fs r) = [] \<and> power_event (loop call fs r) \<or>
   sock (loop call fs r) \<noteq> None \<and> parked (loop call fs r)"
proof (induction fs arbitrary: r)
  case Nil
  then show ?case by (auto simp: teardown_def emit_def)
next
  case (Cons f fs)
  show ?case
  proof (cases "loop_event r \<or> sock r = None")
    case True
    then show ?thesis by (auto simp: teardown_def emit_def)
  next
    case False
    then show ?thesis
      using Cons.IH by (cases "on_message call f (r\<lparr>parked := False\<rparr>)") auto
  qed
qed

lemma close_after_loop:
  "sock (close (emit e (loop call fs r))) = None \<and>
   \<not> parked (close (emit e (loop call fs r))) \<and>
   registered_callbacks (close (emit e (loop call fs r))) = [] \<and>
   power_event (close (emit e (loop call fs r)))"
  using loop_ends_parked_or_gone[of call fs r]
  by (auto simp: close_def recv_fails_def teardown_def emit_def)

lemma trace_close: "x \<in> set (trace r) \<Longrightarrow> x \<in> set (trace (close r))"
  by (auto simp: close_def recv_fails_def teardown_def emit_def split: option.splits)

lemma silent_match_plain:
  assumes "standard e" and "silent (Text m)" and "matches m e"
  shows "call_handler reopen (fst e) m s = Returned s"
proof (cases e)
  case (fields h key data)
  with assms show ?thesis
    by (cases h) (auto simp: standard_def silent_def matches_def split: option.splits)
qed

lemma dispatch_silent:
  assumes "\<And>e. e \<in> set es \<Longrightarrow> standard e" and "silent (Text m)"
  shows "auth_events (state_of (dispatch (call_handler reopen) es m r)) = auth_events r \<and>
         set (registered_callbacks (state_of (dispatch (call_handler reopen) es m r)))
           \<subseteq> set (registered_callbacks r)"
  using assms(1)
proof (induction es arbitrary: r)
  case Nil
  then show ?case by simp
next
  case (Cons e es)
  show ?case
  proof (cases "matches m e")
    case False
    with Cons show ?thesis by simp
  next
    case True
    have c: "call_handler reopen (fst e) m (emit (Call e) r) = Returned (emit (Call e) r)"
      using silent_match_plain[OF _ assms(2) True] Cons.prems by simp
    show ?thesis
    proof (cases "e \<in> set (registered_callbacks r)")
      case False
      with True c show ?thesis by (simp add: emit_def)
    next
      case mem: True
      let ?s = "(emit (Call e) r)\<lparr>registered_callbacks := remove1 e (registered_callbacks r)\<rparr>"
      have "dispatch (call_handler reopen) (e # es) m r = dispatch (call_handler reopen) es m ?s"
        using True c mem by (simp add: emit_def)
      moreover have "auth_events (state_of (dispatch (call_handler reopen) es m ?s)) = auth_events ?s \<and>
         set (registered_callbacks (state_of (dispatch (call_handler reopen) es m ?s)))
           \<subseteq> set (registered_callbacks ?s)"
        using Cons.prems by (intro Cons.IH) simp
      ultimately show ?thesis
        using set_remove1_subset[of e "registered_callbacks r"] by (auto simp: emit_def)
    qed
  qed
qed

lemma loop_silent:
  assumes "\<And>f. f \<in> set fs \<Longrightarrow> silent f"
    and "\<And>e. e \<in> set (registered_callbacks r) \<Longrightarrow> standard e"
  shows "auth_events (loop (call_handler reopen) fs r) = auth_events r"
  using assms
proof (induction fs arbitrary: r)
  case Nil
  then show ?case by (simp add: teardown_def emit_def)
next
  case (Cons f fs)
  show ?case
  proof (cases "loop_event r \<or> sock r = None")
    case True
    then show ?thesis by (auto simp: teardown_def emit_def)
  next
    case False
    let ?call = "call_handler reopen"
    let ?o = "on_message ?call f (r\<lparr>parked := False\<rparr>)"
    have fs: "\<And>f. f \<in> set fs \<Longrightarrow> silent f" using Cons.prems(1) by simp
    have o: "auth_events (state_of ?o) = auth_events r \<and>
             set (registered_callbacks (state_of ?o)) \<subseteq> set (registered_callbacks r)"
    proof (cases f)
      case Malformed
      then show ?thesis by simp
    next
      case (Text m)
      then have "silent (Text m)" using Cons.prems(1) by simp
      from dispatch_silent[OF _ this, of "registered_callbacks r" reopen
             "emit (Log Debug ''incoming message'') (r\<lparr>parked := False\<rparr>)"] Cons.prems(2) Text
      show ?thesis by (simp add: emit_def)
    qed
    show ?thesis
    proof (cases ?o)
      case (Returned s)
      with o have s: "auth_events s = auth_events r"
        and st: "\<And>e. e \<in> set (registered_callbacks s) \<Longrightarrow> standard e"
        using Cons.prems(2) by auto
      have "loop ?call (f # fs) r = loop ?call fs s"
        using False Returned by auto
      with Cons.IH[OF fs st] s show ?thesis by simp
    next
      case (Raised err s)
      with o have s: "auth_events s = auth_events r" by simp
      have "loop ?call (f # fs) r = teardown (s\<lparr>loop_event := True\<rparr>)"
        using False Raised by (cases fs) auto
      with s show ?thesis by (simp add: teardown_def emit_def)
    qed
  qed
qed

lemma await_auth_silent:
  assumes "\<And>f. f \<in> set fs \<Longrightarrow> silent f"
    and "\<And>e. e \<in> set (registered_callbacks r) \<Longrightarrow> standard e"
  shows "\<exists>s. await_auth reopen line fs r = Raised (RuntimeError ''Auth Failure'') s \<and>
             sock s = None \<and> \<not> parked s \<and> registered_callbacks s = [] \<and>
             Wait (AuthEvent (next_id r)) 30 \<in> set (trace s)"
proof -
  define i where "i = next_id r"
  define s0 where "s0 = register_receive_callback (UnauthorizedCallback i line) ''event''
                (Some ''ms.channel.unauthorized'') (register_receive_callback (AuthCallback i line) ''event''
                (Some ''ms.channel.connect'') (r\<lparr>sock := Some (connections r), connections := Suc (connections r),
                   next_id := Suc i, auth_events := removeAll i (auth_events r)\<rparr>))"
  let ?l = "loop (call_handler reopen) fs s0"
  let ?w = "emit (Wait (AuthEvent i) 30) ?l"
  have st: "\<And>e. e \<in> set (registered_callbacks s0) \<Longrightarrow> standard e"
    using assms(2) by (auto simp: s0_def register_receive_callback_def standard_def)
  have "auth_events ?l = auth_events s0"
    by (rule loop_silent[OF assms(1) st])
  then have unset: "i \<notin> set (auth_events ?w)"
    by (simp add: s0_def register_receive_callback_def emit_def)
  have eq: "await_auth reopen line fs r = Raised (RuntimeError ''Auth Failure'') (close ?w)"
    using unset by (simp add: await_auth_def Let_def s0_def i_def)
  have "Wait (AuthEvent i) 30 \<in> set (trace (close ?w))"
    by (rule trace_close) (simp add: emit_def)
  with eq close_after_loop[of "Wait (AuthEvent i) 30" "call_handler reopen" fs s0] show ?thesis
    by (simp add: i_def)
qed


lemma read_tokens_frame:
  "pending (snd (snd (read_tokens r))) = pending r \<and>
   next_id (snd (snd (read_tokens r))) = next_id r \<and>
   registered_callbacks (snd (snd (read_tokens r))) = registered_callbacks r"
  by (simp add: read_tokens_def Let_def emit_def split: prod.splits)

lemma close_frame:
  "pending (close r) = pending r \<and> next_id (close r) = next_id r \<and>
   set (registered_callbacks (close r)) \<subseteq> set (registered_callbacks r)"
  by (simp add: close_def recv_fails_def teardown_def emit_def split: option.splits)

lemma choose_endpoint_frame:
  "pending (choose_endpoint query r) = pending r \<and>
   next_id (choose_endpoint query r) = next_id r \<and>
   set (registered_callbacks (choose_endpoint query r)) \<subseteq> set (registered_callbacks r)"
  using close_frame[of r] by (simp add: choose_endpoint_def Let_def emit_def)

section \<open>Wake-on-LAN packets\<close>

























section \<open>Pointer batches\<close>

text \<open>
  An element of \<^verbatim>\<open>Mouse._commands\<close>: a number (a wait) or a payload, kept as the
  object that \<^verbatim>\<open>json.dumps\<close> serialises.
\<close>

datatype command = Number real | Payload json

text \<open>
  The \<^verbatim>\<open>Mouse\<close> object. \<open>stops\<close> belongs to the world: for the waits on
  \<^verbatim>\<open>_send_event\<close> to come, whether another thread has called \<^verbatim>\<open>stop()\<close> by
  the time the wait returns.
\<close>

record mouse =
  is_running :: bool
  commands :: "command list"
  ime_start_event :: bool
  ime_update_event :: bool
  touch_enable_event :: bool
  send_event :: bool
  stops :: "bool list"

datatype mouse_outcome = Done mouse remote | Failed error mouse remote


fun remote_of :: "mouse_outcome \<Rightarrow> remote" where
  "remote_of (Done m r) = r"
| "remote_of (Failed err m r) = r"

definition new_mouse :: mouse where
  "new_mouse = \<lparr>is_running = False, commands = [], ime_start_event = False,
                 ime_update_event = False, touch_enable_event = False, send_event = False,
                 stops = []\<rparr>"

definition clear :: "mouse \<Rightarrow> mouse" where
  "clear m = (if \<not> is_running m then m\<lparr>commands := []\<rparr> else m)"

text \<open>\<^verbatim>\<open>params.update(kwargs)\<close> on dictionaries kept as association lists.\<close>

definition set_item :: "string \<Rightarrow> json \<Rightarrow> (string \<times> json) list \<Rightarrow> (string \<times> json) list" where
  "set_item k v d =
     (if map_of d k = None then d @ [(k, v)]
      else map (\<lambda>(k', v'). if k' = k then (k', v) else (k', v')) d)"

definition py_update :: "(string \<times> json) list \<Rightarrow> (string \<times> json) list \<Rightarrow> (string \<times> json) list" where
  "py_update d kwargs = fold (\<lambda>(k, v). set_item k v) kwargs d"

text \<open>
  \<^verbatim>\<open>Mouse._send\<close>. It reads the attribute \<^verbatim>\<open>connection\<close> of the remote first; an
  object without that attribute raises \<^verbatim>\<open>AttributeError\<close>.
\<close>

definition mouse_send :: "string \<Rightarrow> (string \<times> json) list \<Rightarrow> mouse \<Rightarrow> remote \<Rightarrow> error + mouse" where
  "mouse_send cmd kwargs m r =
     (case connection r of
        None \<Rightarrow> Inl AttributeError
      | Some up \<Rightarrow>
          if \<not> up then Inl ConnectionClosed
          else if \<not> is_running m then
            (let params = py_update [(''Cmd'', JStr cmd), (''TypeOfRemote'', JStr ''ProcessMouseDevice'')]
                            kwargs;
                 payload = JObj [(''method'', JStr ''ms.remote.control''), (''params'', JObj params)]
             in Inr (m\<lparr>commands := commands m @ [Payload payload]\<rparr>))
          else Inr m)"

definition left_click :: "mouse \<Rightarrow> remote \<Rightarrow> error + mouse" where
  "left_click m r = mouse_send ''LeftClick'' [] m r"

definition right_click :: "mouse \<Rightarrow> remote \<Rightarrow> error + mouse" where
  "right_click m r = mouse_send ''RightClick'' [] m r"

text \<open>\<^verbatim>\<open>move\<close>; \<open>now\<close> is \<^verbatim>\<open>str(time.time())\<close>.\<close>

definition move :: "int \<Rightarrow> int \<Rightarrow> string \<Rightarrow> mouse \<Rightarrow> remote \<Rightarrow> error + mouse" where
  "move x y now m r =
     mouse_send ''Move''
       [(''Position'', JObj [(''x'', JNum x), (''y'', JNum y), (''Time'', JStr now)])] m r"

definition add_wait :: "real \<Rightarrow> mouse \<Rightarrow> mouse" where
  "add_wait wait m = (if is_running m then m\<lparr>commands := commands m @ [Number wait]\<rparr> else m)"

definition stop :: "mouse \<Rightarrow> mouse" where
  "stop m =
     (if is_running m
      then m\<lparr>send_event := True, ime_start_event := True, ime_update_event := True,
             touch_enable_event := True\<rparr>
      else m)"

text \<open>
  The \<^verbatim>\<open>for\<close> loop of \<^verbatim>\<open>run\<close> over the queue (lines 579 to 589): it comes to the
  end, or returns from a wait that \<^verbatim>\<open>stop()\<close> has cut short, or a write on a
  socket that is gone raises.
\<close>

datatype replayed = Finished mouse remote | Stopped mouse remote | Crashed error mouse remote

definition wait_send :: "mouse \<Rightarrow> mouse" where
  "wait_send m =
     (case stops m of
        [] \<Rightarrow> m
      | s # ss \<Rightarrow> (let m = m\<lparr>stops := ss\<rparr> in if s then stop m else m))"

fun replay :: "command list \<Rightarrow> mouse \<Rightarrow> remote \<Rightarrow> replayed" where
  "replay [] m r = Finished m r"
| "replay (Number t # rest) m r =
     (let r = emit (Wait SendEvent t) r;
          m = wait_send m
      in if send_event m then Stopped (m\<lparr>is_running := False\<rparr>) r
         else replay rest m r)"
| "replay (Payload payload # rest) m r =
     (let r = emit (Log Info ''Sending mouse control command'') r
      in case sock r of
           None \<Rightarrow> Crashed AttributeError m r
         | Some c \<Rightarrow> replay rest m (emit (SockSend c payload) r))"

text \<open>
  \<^verbatim>\<open>run\<close>. The three readiness callbacks are closures of this call and carry its
  number; the waits on the readiness events are bounded by the length of the queue and
  their result is not looked at.
\<close>

definition run :: "mouse \<Rightarrow> remote \<Rightarrow> mouse_outcome" where
  "run m r =
     (if sock r = None then Done m (emit (Log Err ''Is the TV on??'') r)
      else if \<not> is_running m then
        (let m = m\<lparr>send_event := False, ime_start_event := False, ime_update_event := False,
                    touch_enable_event := False\<rparr>;
             m = m\<lparr>is_running := True\<rparr>;
             i = next_id r;
             r = r\<lparr>next_id := Suc i\<rparr>;
             r = register_receive_callback (ImeStart i) ''event'' (Some ''ms.remote.imeStart'') r;
             r = register_receive_callback (ImeUpdate i) ''event'' (Some ''ms.remote.imeUpdate'') r;
             r = register_receive_callback (TouchEnable i) ''event'' (Some ''ms.remote.touchEnable'') r
         in case replay (commands m) m r of
              Crashed err m r \<Rightarrow> Failed err m r
            | Stopped m r \<Rightarrow> Done m r
            | Finished m r \<Rightarrow>
                (let r = emit (Wait ImeStartEvent (real (length (commands m)))) r;
                     r = emit (Wait ImeUpdateEvent (real (length (commands m)))) r;
                     r = emit (Wait TouchEnableEvent (real (length (commands m)))) r
                 in Done (m\<lparr>is_running := False\<rparr>) r))
      else Done m r)"





section \<open>Claims\<close>

text \<open>
  \<^verbatim>\<open>__init__\<close>: a fresh object for a configuration, in a world with an empty
  \<^verbatim>\<open>token.txt\<close>, no known hardware address and an unreachable device.
\<close>

definition new_remote :: "string \<Rightarrow> int \<Rightarrow> string \<Rightarrow> remote" where
  "new_remote h p n =
     \<lparr>host = h, port = p, name = n, token_file = [], sock = None, loop_event = False,
      power_event = False, registered_callbacks = [], running = False,
      mac_address_attr = None, connection = None, auth_events = [], next_id = 0,
      connections = 0, parked = False, arp = None, pending = [], hangups = [], trace = []\<rparr>"

text \<open>A device that accepts the connection and sends the frames \<open>fs\<close>.\<close>

definition answers :: "frame list \<Rightarrow> conn" where
  "answers fs = \<lparr>accept = True, inbound = fs\<rparr>"

definition authorized :: "string \<Rightarrow> frame" where
  "authorized tok =
     Text [(''event'', JStr ''ms.channel.connect''), (''data'', JObj [(''token'', JStr tok)])]"

definition unauthorized :: frame where
  "unauthorized = Text [(''event'', JStr ''ms.channel.unauthorized'')]"

text \<open>
  C1. After a successful handshake for host H that yields a new token T, the credential
  store should hold exactly one entry for H, with value T. On the example of the
  specification (entries \<^verbatim>\<open>10.0.0.5:abc\<close> and \<^verbatim>\<open>10.0.0.9:xyz\<close>, new token
  \<^verbatim>\<open>def\<close> for \<^verbatim>\<open>10.0.0.5\<close>) the handshake returns and the file holds the old
  and the new entry of the host: the loop of \<^verbatim>\<open>auth_callback\<close> tests \<^verbatim>\<open>line\<close>,
  which is the empty last element of the split file, so it removes nothing.
\<close>

theorem token_rotation_keeps_old_entry:
  "raised (open_depth 2 ((new_remote ''10.0.0.5'' 8001 ''tv'')
      \<lparr>token_file := py_join [newline] [''10.0.0.5:abc'', ''10.0.0.9:xyz'', []],
       pending := [answers [authorized ''def'']]\<rparr>)) = None \<and>
   py_split newline (token_file (state_of (open_depth 2 ((new_remote ''10.0.0.5'' 8001 ''tv'')
      \<lparr>token_file := py_join [newline] [''10.0.0.5:abc'', ''10.0.0.9:xyz'', []],
       pending := [answers [authorized ''def'']]\<rparr>)))) =
     [''10.0.0.9:xyz'', ''10.0.0.5:abc'', [], ''10.0.0.5:def'', []]"
  by code_simp

text \<open>When the file does not end with a newline and its last line is the one of the host,
  \<^verbatim>\<open>line\<close> passes the test at every step and the loop removes every line, those of
  the other hosts included.\<close>

lemma token_rotation_drops_other_hosts:
  "py_split newline (token_file (state_of (open_depth 2 ((new_remote ''10.0.0.5'' 8001 ''tv'')
      \<lparr>token_file := py_join [newline] [''10.0.0.9:xyz'', ''10.0.0.5:abc''],
       pending := [answers [authorized ''def'']]\<rparr>)))) =
     [''10.0.0.5:def'', []]"
  by code_simp

text \<open>
  C2. Dispatch should invoke the handler of at most one entry, the first that matches.
  \<^verbatim>\<open>on_message\<close> goes through the whole copy of the registry and has no
  \<^verbatim>\<open>break\<close>: two entries that match the same message are both invoked. Here they
  are two registrations for the event \<^verbatim>\<open>ed.installedApp.get\<close>.
\<close>

theorem on_message_fires_two_entries:
  "fired (trace (state_of (on_message (call_handler (open_depth 2))
      (Text [(''event'', JStr ''ed.installedApp.get'')])
      ((new_remote ''10.0.0.5'' 8001 ''tv'')
         \<lparr>registered_callbacks := [(Plain 0, ''event'', Some ''ed.installedApp.get''),
                                   (Plain 1, ''event'', Some ''ed.installedApp.get'')]\<rparr>)))) =
   [(Plain 0, ''event'', Some ''ed.installedApp.get''),
    (Plain 1, ''event'', Some ''ed.installedApp.get'')]"
  by code_simp

text \<open>
  C2, amended. For callbacks that return and leave the object alone, dispatch invokes
  the callback of every entry that matches the message, in the order of the registry,
  and takes exactly the matching entries out; a message that matches no entry invokes
  nothing and leaves the registry as it is (whatever the callbacks are).
\<close>

theorem on_message_fires_every_match:
  assumes "\<And>e s. e \<in> set (registered_callbacks r) \<Longrightarrow> matches m e \<Longrightarrow> call (fst e) m s = Returned s"
  shows "on_message call (Text m) r =
         Returned (r\<lparr>registered_callbacks := filter (\<lambda>e. \<not> matches m e) (registered_callbacks r),
                     trace := trace r @ Log Debug ''incoming message'' #
                                map Call (filter (matches m) (registered_callbacks r))\<rparr>)"
  using dispatch_all_matches[of "registered_callbacks r" m call
          "emit (Log Debug ''incoming message'') r" "[]"] assms
  by (simp add: emit_def)


theorem on_message_fires_every_match_witness:
  "on_message (call_handler (open_depth 2)) (Text [(''event'', JStr ''ed.edenApp.get'')])
     ((new_remote ''10.0.0.5'' 8001 ''tv'')
        \<lparr>registered_callbacks := [(Plain 0, ''event'', Some ''ed.edenApp.get''),
                                  (Plain 1, ''event'', Some ''ed.installedApp.get'')]\<rparr>) =
   Returned ((new_remote ''10.0.0.5'' 8001 ''tv'')
        \<lparr>registered_callbacks := [(Plain 1, ''event'', Some ''ed.installedApp.get'')],
         trace := [Log Debug ''incoming message'', Call (Plain 0, ''event'', Some ''ed.edenApp.get'')]\<rparr>)"
  (is "on_message ?call (Text ?m) ?r = _")
proof -
  have plain: "\<And>e s. e \<in> set (registered_callbacks ?r) \<Longrightarrow> matches ?m e \<Longrightarrow>
      ?call (fst e) ?m s = Returned s"
    by auto
  have "on_message ?call (Text ?m) ?r =
        Returned (?r\<lparr>registered_callbacks := filter (\<lambda>e. \<not> matches ?m e) (registered_callbacks ?r),
                     trace := trace ?r @ Log Debug ''incoming message'' #
                                map Call (filter (matches ?m) (registered_callbacks ?r))\<rparr>)"
    by (rule on_message_fires_every_match [where r = "?r" and m = "?m" and call = "?call", OF plain])
  also have "\<dots> = Returned ((new_remote ''10.0.0.5'' 8001 ''tv'')
        \<lparr>registered_callbacks := [(Plain 1, ''event'', Some ''ed.installedApp.get'')],
         trace := [Log Debug ''incoming message'', Call (Plain 0, ''event'', Some ''ed.edenApp.get'')]\<rparr>)"
    by (simp add: new_remote_def matches_def)
  finally show ?thesis .
qed




text \<open>
  C3. An ``unauthorized'' event on the secure variant should end the handshake with the
  socket closed and \<^verbatim>\<open>AuthDenied\<close> raised to the caller of \<^verbatim>\<open>open\<close>. The
  callback does close the socket and raise, but it runs on the receive thread, after
  it has set \<^verbatim>\<open>auth_event\<close>: the \<^verbatim>\<open>except\<close> of \<^verbatim>\<open>loop\<close> swallows the
  exception, and \<^verbatim>\<open>open\<close> finds the event set and returns with
  \<^verbatim>\<open>_running\<close> true.
\<close>

theorem unauthorized_on_secure_variant_returns:
  "raised (open_depth 2 ((new_remote ''10.0.0.5'' 8002 ''tv'')
      \<lparr>pending := [answers [unauthorized]]\<rparr>)) = None \<and>
   running (state_of (open_depth 2 ((new_remote ''10.0.0.5'' 8002 ''tv'')
      \<lparr>pending := [answers [unauthorized]]\<rparr>))) \<and>
   trace (state_of (open_depth 2 ((new_remote ''10.0.0.5'' 8002 ''tv'')
      \<lparr>pending := [answers [unauthorized]]\<rparr>))) =
     [Connect WSS ''10.0.0.5'' 8002 ''tv'' [], Log Debug ''incoming message'',
      Call (UnauthorizedCallback 0 [], ''event'', Some ''ms.channel.unauthorized''),
      SockClose 0, Log Info ''Websocket closed'', Wait (AuthEvent 0) 30]"
  by code_simp

text \<open>
  C9. A handshake whose connection stands and whose frames are all silent, so that
  neither callback of \<^verbatim>\<open>open\<close> fires: \<^verbatim>\<open>open\<close> waits 30 on its
  \<^verbatim>\<open>auth_event\<close>, closes the session (no socket, no receive thread and no
  registered callback is left) and raises \<^verbatim>\<open>RuntimeError('Auth Failure')\<close>.
\<close>

theorem silent_handshake_times_out:
  assumes "pending r = c # cs" and "accept c"
    and "\<And>f. f \<in> set (inbound c) \<Longrightarrow> silent f"
    and "\<And>e. e \<in> set (registered_callbacks r) \<Longrightarrow> standard e"
  shows "raised (open_depth (Suc d) r) = Some (RuntimeError ''Auth Failure'') \<and>
         sock (state_of (open_depth (Suc d) r)) = None \<and>
         \<not> parked (state_of (open_depth (Suc d) r)) \<and>
         registered_callbacks (state_of (open_depth (Suc d) r)) = [] \<and>
         Wait (AuthEvent (next_id r)) 30 \<in> set (trace (state_of (open_depth (Suc d) r)))"
proof -
  obtain line query r1 where rt: "read_tokens r = (line, query, r1)"
    by (cases "read_tokens r") auto
  define r2 where "r2 = choose_endpoint query r1"
  have r1: "pending r1 = pending r" "next_id r1 = next_id r"
    "registered_callbacks r1 = registered_callbacks r"
    using read_tokens_frame[of r] rt by simp_all
  have p: "pending r2 = c # cs" and n: "next_id r2 = next_id r"
    using r1 choose_endpoint_frame[of query r1] assms(1)
    by (simp_all add: r2_def)
  have "set (registered_callbacks r2) \<subseteq> set (registered_callbacks r)"
    using r1 choose_endpoint_frame[of query r1] by (simp add: r2_def)
  then have st: "\<And>e. e \<in> set (registered_callbacks (r2\<lparr>pending := cs\<rparr>)) \<Longrightarrow> standard e"
    using assms(4) by auto
  have eq: "open_depth (Suc d) r = await_auth (open_depth d) line (inbound c) (r2\<lparr>pending := cs\<rparr>)"
    using rt p assms(2) by (simp add: open_with_def r2_def)
  have "\<exists>s. await_auth (open_depth d) line (inbound c) (r2\<lparr>pending := cs\<rparr>) =
               Raised (RuntimeError ''Auth Failure'') s \<and>
             sock s = None \<and> \<not> parked s \<and> registered_callbacks s = [] \<and>
             Wait (AuthEvent (next_id (r2\<lparr>pending := cs\<rparr>))) 30 \<in> set (trace s)"
  proof (rule await_auth_silent)
    show "\<And>f. f \<in> set (inbound c) \<Longrightarrow> silent f" by (rule assms(3))
    show "\<And>e. e \<in> set (registered_callbacks (r2\<lparr>pending := cs\<rparr>)) \<Longrightarrow> standard e"
      by (rule st)
  qed
  then obtain s where "open_depth (Suc d) r = Raised (RuntimeError ''Auth Failure'') s"
    and "sock s = None" and "\<not> parked s" and "registered_callbacks s = []"
    and "Wait (AuthEvent (next_id r)) 30 \<in> set (trace s)"
    using eq n by auto
  then show ?thesis by simp
qed

theorem silent_handshake_times_out_witness:
  "raised (open_depth (Suc (Suc 0)) ((new_remote ''10.0.0.5'' 8001 ''tv'')
      \<lparr>pending := [answers [Text [(''event'', JStr ''ms.channel.clientConnect'')]]]\<rparr>)) =
     Some (RuntimeError ''Auth Failure'') \<and>
   sock (state_of (open_depth (Suc (Suc 0)) ((new_remote ''10.0.0.5'' 8001 ''tv'')
      \<lparr>pending := [answers [Text [(''event'', JStr ''ms.channel.clientConnect'')]]]\<rparr>))) = None \<and>
   Wait (AuthEvent 0) 30 \<in> set (trace (state_of (open_depth (Suc (Suc 0))
     ((new_remote ''10.0.0.5'' 8001 ''tv'')
      \<lparr>pending := [answers [Text [(''event'', JStr ''ms.channel.clientConnect'')]]]\<rparr>))))"
  (is "raised (open_depth _ ?r) = _ \<and> _")
proof -
  let ?c = "answers [Text [(''event'', JStr ''ms.channel.clientConnect'')]]"
  have p: "pending ?r = ?c # []" and a: "accept ?c"
    by (simp_all add: new_remote_def answers_def)
  have f: "\<And>f. f \<in> set (inbound ?c) \<Longrightarrow> silent f"
    by (simp add: answers_def silent_def)
  have e: "\<And>e. e \<in> set (registered_callbacks ?r) \<Longrightarrow> standard e"
    by (simp add: new_remote_def)
  have n: "next_id ?r = 0"
    by (simp add: new_remote_def)
  show ?thesis
    using silent_handshake_times_out [where r = "?r" and d = "Suc 0", OF p a f e] n
    by simp
qed



text \<open>With an unreachable device the budget is used up: six rounds of wake packet, wait
  and connection attempt, then the log record.\<close>

lemma power_on_unreachable:
  "trace (state_of (power_set 2 True ((new_remote ''10.0.0.5'' 8001 ''tv'')\<lparr>arp := Some ''aa:bb:cc:dd:ee:ff''\<rparr>))) =
   concat (replicate 6 [SendWol ''aa:bb:cc:dd:ee:ff'', Wait PowerEvent 10, Connect WS ''10.0.0.5'' 8001 ''tv'' []]) @
   [Log Err ''Unable to power on the TV, check network connectivity'']"
  by code_simp

text \<open>
  C7. A power-on request without a hardware address should log and do nothing else. The
  setter has no branch for the missing address: on a fresh object, whose address lookup
  finds nothing, the request leaves the trace empty, so nothing is logged either.
\<close>

theorem power_on_without_address_is_silent:
  "trace (state_of (power_set 2 True (new_remote ''10.0.0.5'' 8001 ''tv''))) = []"
  by code_simp


text \<open>
  C7, amended. While the session is down and no hardware address is known, a power-on
  request returns without any effect: no wake packet, no connection attempt, no wait and
  no log record; the power stays off, and the only changes to the object are the cleared
  power event and the remembered empty address.
\<close>

theorem power_on_without_address_does_nothing:
  assumes "sock r = None" and "fst (mac_address (r\<lparr>power_event := False\<rparr>)) = []"
  shows "power_set d True r = Returned (r\<lparr>power_event := False, mac_address_attr := Some []\<rparr>)"
proof -
  have "mac_address (r\<lparr>power_event := False\<rparr>) =
          ([], r\<lparr>power_event := False, mac_address_attr := Some []\<rparr>)"
  proof (cases "mac_address_attr r")
    case None
    with assms(2) show ?thesis
      by (auto simp: mac_address_def Let_def split: option.splits)
  next
    case (Some m)
    with assms(2) have "m = []" by (simp add: mac_address_def)
    with Some have "r\<lparr>power_event := False, mac_address_attr := Some []\<rparr> = r\<lparr>power_event := False\<rparr>"
      by (cases r) simp
    with Some \<open>m = []\<close> show ?thesis by (simp add: mac_address_def)
  qed
  with assms(1) show ?thesis by (simp add: Let_def)
qed

theorem power_on_without_address_does_nothing_witness:
  "power_set 2 True (new_remote ''10.0.0.5'' 8001 ''tv'') =
   Returned ((new_remote ''10.0.0.5'' 8001 ''tv'')\<lparr>mac_address_attr := Some []\<rparr>)"
  (is "power_set 2 True ?r = _")
proof -
  have s: "sock ?r = None"
    by (simp add: new_remote_def)
  have m: "fst (mac_address (?r\<lparr>power_event := False\<rparr>)) = []"
    by (simp add: new_remote_def mac_address_def Let_def)
  show ?thesis
    using power_on_without_address_does_nothing [where r = "?r" and d = 2, OF s m]
    by (simp add: new_remote_def)
qed





text \<open>
  C5. While a run is active every change of the queue should be rejected.
  \<^verbatim>\<open>add_wait\<close> tests the flag the wrong way round: it appends while a run is active
  and does nothing otherwise. (The pointer commands go through \<^verbatim>\<open>_send\<close>, which on
  a \<^verbatim>\<open>RemoteWebsocket\<close> raises \<^verbatim>\<open>AttributeError\<close> before it looks at the flag.)
\<close>

theorem add_wait_appends_while_running:
  "commands (add_wait 5 (new_mouse\<lparr>is_running := True\<rparr>)) = [Number 5] \<and>
   commands (add_wait 5 new_mouse) = [] \<and>
   left_click (new_mouse\<lparr>is_running := True\<rparr>) (new_remote ''10.0.0.5'' 8001 ''tv'') =
     Inl AttributeError"
  by (simp add: add_wait_def new_mouse_def left_click_def mouse_send_def new_remote_def)


text \<open>
  C10. A run on an empty queue with a live session, started while no run is active:
  the three readiness callbacks are registered, nothing is written to the socket, each
  of the three waits is bounded by 0, and the run returns with the running flag and the
  three readiness events all false.
\<close>

theorem empty_run_waits_zero:
  assumes "sock r = Some c" and "\<not> is_running m" and "commands m = []"
  shows "run m r =
     Done (m\<lparr>send_event := False, ime_start_event := False, ime_update_event := False,
             touch_enable_event := False, is_running := False\<rparr>)
          (r\<lparr>next_id := Suc (next_id r),
             registered_callbacks := registered_callbacks r @
               [(ImeStart (next_id r), ''event'', Some ''ms.remote.imeStart''),
                (ImeUpdate (next_id r), ''event'', Some ''ms.remote.imeUpdate''),
                (TouchEnable (next_id r), ''event'', Some ''ms.remote.touchEnable'')],
             trace := trace r @
               [Wait ImeStartEvent 0, Wait ImeUpdateEvent 0, Wait TouchEnableEvent 0]\<rparr>)"
  using assms by (simp add: run_def Let_def register_receive_callback_def emit_def)


theorem empty_run_waits_zero_witness:
  "run new_mouse ((new_remote ''10.0.0.5'' 8001 ''tv'')\<lparr>sock := Some 0\<rparr>) =
     Done new_mouse
          ((new_remote ''10.0.0.5'' 8001 ''tv'')
             \<lparr>sock := Some 0, next_id := 1,
              registered_callbacks :=
                [(ImeStart 0, ''event'', Some ''ms.remote.imeStart''),
                 (ImeUpdate 0, ''event'', Some ''ms.remote.imeUpdate''),
                 (TouchEnable 0, ''event'', Some ''ms.remote.touchEnable'')],
              trace := [Wait ImeStartEvent 0, Wait ImeUpdateEvent 0, Wait TouchEnableEvent 0]\<rparr>)"
  (is "run ?m ?r = _")
proof -
  have s: "sock ?r = Some 0"
    by (simp add: new_remote_def)
  have i: "\<not> is_running ?m" and q: "commands ?m = []"
    by (simp_all add: new_mouse_def)
  show ?thesis
    using empty_run_waits_zero [where m = "?m" and r = "?r", OF s i q]
    by (simp add: new_mouse_def new_remote_def)
qed

end
